theory Spec2Isabelle
  imports Complex_Main "HOL-Library.Sublist"
begin

section \<open>The outside world of the two scripts\<close>

text \<open>
  The repository consists of two Python scripts, \<^verbatim>\<open>testing.py\<close> and
  \<^verbatim>\<open>testing_highload.py\<close>, that post sentences to a translation endpoint.
  Both are effectful: they call \<^verbatim>\<open>requests.post\<close>, \<^verbatim>\<open>time.time\<close>,
  \<^verbatim>\<open>print\<close> and \<^verbatim>\<open>pl.read_csv\<close>. The effects are modelled by explicit
  state passing over a record of the world; every exception is a value \<open>Inl e\<close>.

  Python strings are modelled as \<open>string\<close> (their UTF-8 bytes), Python floats
  as \<open>real\<close>: rounding of \<^verbatim>\<open>float\<close> arithmetic is not modelled, so the
  values of \<open>t - s0\<close> and of \<^verbatim>\<open>sum(times) / len(times)\<close> below are the exact ones,
  which the IEEE doubles of the script only approximate. The theorems below are about
  the control flow and about the number, the order and the sign of these values.
\<close>

datatype json = JString string | JObject "(string \<times> json) list"

datatype http_method = POST

record request =
  http_method :: http_method
  url :: string
  body :: json

text \<open>
  What \<^verbatim>\<open>requests.post\<close> hands back when it does not raise: the status code,
  which neither script ever inspects, and what \<^verbatim>\<open>resp.json()\<close> will yield
  (\<open>None\<close> when the body is not JSON, where \<^verbatim>\<open>resp.json()\<close> raises).
\<close>

record response =
  status_code :: nat
  payload :: "json option"

text \<open>
  The exceptions that can leave the scripts. \<open>DataUnavailable\<close> stands for
  whatever \<^verbatim>\<open>pl.read_csv\<close> raises, \<open>RequestFailed\<close> for whatever
  \<^verbatim>\<open>requests.post\<close> or \<^verbatim>\<open>resp.json()\<close> raises; no script catches
  anything, so an exception ends the script where it is raised.
\<close>

datatype error = DataUnavailable | RequestFailed | KeyError | ZeroDivisionError

text \<open>The three \<^verbatim>\<open>print\<close> statements of the scripts.\<close>

datatype line =
    PrintData json
  | PrintElapsed real json
  | PrintAverage real

text \<open>
  \<^item> \<open>clock k\<close> is the value of the \<open>k\<close>-th evaluation of \<^verbatim>\<open>time.time()\<close>,
    \<open>ticks\<close> counts the evaluations so far;
  \<^item> \<open>service i r\<close> is what the \<open>i\<close>-th call of \<^verbatim>\<open>requests.post\<close> does when
    given request \<open>r\<close>: \<open>None\<close> when it raises, otherwise the response;
  \<^item> \<open>wire\<close> lists the requests handed to \<^verbatim>\<open>requests.post\<close>, oldest first;
  \<^item> \<open>stdout\<close> lists what has been printed, oldest first.
\<close>

record world =
  clock :: "nat \<Rightarrow> real"
  ticks :: nat
  service :: "nat \<Rightarrow> request \<Rightarrow> response option"
  wire :: "request list"
  stdout :: "line list"

text \<open>
  The state of \<^verbatim>\<open>testing_highload.py\<close> adds its list variable \<^verbatim>\<open>times\<close>
  (primed here, \<open>times\<close> being the multiplication of HOL).
\<close>

record state = world +
  times' :: "real list"

type_synonym row = "(string \<times> string) list"

type_synonym dataframe = "row list"

definition time_time :: "'a world_scheme \<Rightarrow> real \<times> 'a world_scheme" where
  "time_time w = (clock w (ticks w), w\<lparr>ticks := Suc (ticks w)\<rparr>)"

definition requests_post ::
  "string \<Rightarrow> json \<Rightarrow> 'a world_scheme \<Rightarrow> (error + response) \<times> 'a world_scheme" where
  "requests_post u js w =
     (let r = \<lparr>http_method = POST, url = u, body = js\<rparr> in
      (case service w (length (wire w)) r of
         None \<Rightarrow> Inl RequestFailed
       | Some resp \<Rightarrow> Inr resp,
       w\<lparr>wire := wire w @ [r]\<rparr>))"

definition response_json :: "response \<Rightarrow> error + json" where
  "response_json resp =
     (case payload resp of None \<Rightarrow> Inl RequestFailed | Some d \<Rightarrow> Inr d)"

definition print_line :: "line \<Rightarrow> 'a world_scheme \<Rightarrow> 'a world_scheme" where
  "print_line l w = w\<lparr>stdout := stdout w @ [l]\<rparr>"

section \<open>The script testing\<close>

definition addr :: string where
  "addr = ''http://127.0.0.1:3000/translate''"

definition call :: "string \<Rightarrow> 'a world_scheme \<Rightarrow> (error + unit) \<times> 'a world_scheme" where
  "call text w =
     (case requests_post addr
             (JObject [(''text'', JString text),
                       (''source_lang'', JString ''en''),
                       (''target_lang'', JString ''uk'')]) w of
        (Inl e, w1) \<Rightarrow> (Inl e, w1)
      | (Inr resp, w1) \<Rightarrow>
          (case response_json resp of
             Inl e \<Rightarrow> (Inl e, w1)
           | Inr d \<Rightarrow> (Inr (), print_line (PrintData d) w1)))"

definition call_back :: "string \<Rightarrow> 'a world_scheme \<Rightarrow> (error + unit) \<times> 'a world_scheme" where
  "call_back text w =
     (case requests_post addr
             (JObject [(''text'', JString text),
                       (''source_lang'', JString ''uk''),
                       (''target_lang'', JString ''en'')]) w of
        (Inl e, w1) \<Rightarrow> (Inl e, w1)
      | (Inr resp, w1) \<Rightarrow>
          (case response_json resp of
             Inl e \<Rightarrow> (Inl e, w1)
           | Inr d \<Rightarrow> (Inr (), print_line (PrintData d) w1)))"

text \<open>
  \<^verbatim>\<open>for sent in sentences: f(sent)\<close>, for \<open>f\<close> one of \<open>call\<close> and \<open>call_back\<close>:
  an exception leaves the loop.
\<close>

fun for_each ::
  "(string \<Rightarrow> 'a world_scheme \<Rightarrow> (error + unit) \<times> 'a world_scheme) \<Rightarrow>
   string list \<Rightarrow> 'a world_scheme \<Rightarrow> (error + unit) \<times> 'a world_scheme" where
  "for_each f [] w = (Inr (), w)"
| "for_each f (sent # rest) w =
     (case f sent w of
        (Inl e, w1) \<Rightarrow> (Inl e, w1)
      | (Inr u, w1) \<Rightarrow> for_each f rest w1)"

definition sentences_ukrainian :: "string list" where
  "sentences_ukrainian =
    [
     [CHR 0xD0, CHR 0x9F, CHR 0xD1, CHR 0x80, CHR 0xD0, CHR 0xB8, CHR 0xD0, CHR 0xB2, CHR
      0xD1, CHR 0x96, CHR 0xD1, CHR 0x82, CHR 0x2C, CHR 0x20, CHR 0xD1, CHR 0x81, CHR
      0xD0, CHR 0xB2, CHR 0xD1, CHR 0x96, CHR 0xD1, CHR 0x82, CHR 0xD0, CHR 0xB5, CHR
      0x21],
     [CHR 0xD0, CHR 0xAF, CHR 0xD0, CHR 0xBA, CHR 0x20, CHR 0xD1, CHR 0x81, CHR 0xD0, CHR
      0xBF, CHR 0xD1, CHR 0x80, CHR 0xD0, CHR 0xB0, CHR 0xD0, CHR 0xB2, CHR 0xD0, CHR
      0xB8, CHR 0x3F],
     [CHR 0xD0, CHR 0xAF, CHR 0x20, CHR 0xD0, CHR 0xB2, CHR 0xD0, CHR 0xB8, CHR 0xD0, CHR
      0xB2, CHR 0xD1, CHR 0x87, CHR 0xD0, CHR 0xB0, CHR 0xD1, CHR 0x8E, CHR 0x20, CHR
      0xD0, CHR 0xBF, CHR 0xD1, CHR 0x80, CHR 0xD0, CHR 0xBE, CHR 0xD0, CHR 0xB3, CHR
      0xD1, CHR 0x80, CHR 0xD0, CHR 0xB0, CHR 0xD0, CHR 0xBC, CHR 0xD1, CHR 0x83, CHR
      0xD0, CHR 0xB2, CHR 0xD0, CHR 0xB0, CHR 0xD0, CHR 0xBD, CHR 0xD0, CHR 0xBD, CHR
      0xD1, CHR 0x8F, CHR 0x20, CHR 0xD0, CHR 0xBD, CHR 0xD0, CHR 0xB0, CHR 0x20, CHR
      0x52, CHR 0x75, CHR 0x73, CHR 0x74, CHR 0x2E],
     [CHR 0xD0, CHR 0xA6, CHR 0xD0, CHR 0xB5, CHR 0x20, CHR 0xD0, CHR 0xB4, CHR 0xD1, CHR
      0x83, CHR 0xD0, CHR 0xB6, CHR 0xD0, CHR 0xB5, CHR 0x20, CHR 0xD1, CHR 0x86, CHR
      0xD1, CHR 0x96, CHR 0xD0, CHR 0xBA, CHR 0xD0, CHR 0xB0, CHR 0xD0, CHR 0xB2, CHR
      0xD0, CHR 0xBE, CHR 0x2E],
     [CHR 0xD0, CHR 0x94, CHR 0xD1, CHR 0x8F, CHR 0xD0, CHR 0xBA, CHR 0xD1, CHR 0x83, CHR
      0xD1, CHR 0x8E, CHR 0x20, CHR 0xD0, CHR 0xB7, CHR 0xD0, CHR 0xB0, CHR 0x20, CHR
      0xD0, CHR 0xB4, CHR 0xD0, CHR 0xBE, CHR 0xD0, CHR 0xBF, CHR 0xD0, CHR 0xBE, CHR
      0xD0, CHR 0xBC, CHR 0xD0, CHR 0xBE, CHR 0xD0, CHR 0xB3, CHR 0xD1, CHR 0x83, CHR
      0x2E],
     [CHR 0xD0, CHR 0x93, CHR 0xD0, CHR 0xB0, CHR 0xD1, CHR 0x80, CHR 0xD0, CHR 0xBD, CHR
      0xD0, CHR 0xBE, CHR 0xD0, CHR 0xB3, CHR 0xD0, CHR 0xBE, CHR 0x20, CHR 0xD0, CHR
      0xB4, CHR 0xD0, CHR 0xBD, CHR 0xD1, CHR 0x8F, CHR 0x21],
     [CHR 0xD0, CHR 0x94, CHR 0xD0, CHR 0xBE, CHR 0x20, CHR 0xD0, CHR 0xBF, CHR 0xD0, CHR
      0xBE, CHR 0xD0, CHR 0xB1, CHR 0xD0, CHR 0xB0, CHR 0xD1, CHR 0x87, CHR 0xD0, CHR
      0xB5, CHR 0xD0, CHR 0xBD, CHR 0xD0, CHR 0xBD, CHR 0xD1, CHR 0x8F, CHR 0x2E],
     [CHR 0xD0, CHR 0xA1, CHR 0xD0, CHR 0xBB, CHR 0xD0, CHR 0xB0, CHR 0xD0, CHR 0xB2, CHR
      0xD0, CHR 0xB0, CHR 0x20, CHR 0xD0, CHR 0xA3, CHR 0xD0, CHR 0xBA, CHR 0xD1, CHR
      0x80, CHR 0xD0, CHR 0xB0, CHR 0xD1, CHR 0x97, CHR 0xD0, CHR 0xBD, CHR 0xD1, CHR
      0x96, CHR 0x21],
     [CHR 0xD0, CHR 0x93, CHR 0xD0, CHR 0xB5, CHR 0xD1, CHR 0x80, CHR 0xD0, CHR 0xBE, CHR
      0xD1, CHR 0x8F, CHR 0xD0, CHR 0xBC, CHR 0x20, CHR 0xD1, CHR 0x81, CHR 0xD0, CHR
      0xBB, CHR 0xD0, CHR 0xB0, CHR 0xD0, CHR 0xB2, CHR 0xD0, CHR 0xB0, CHR 0x21],
     [CHR 0xD0, CHR 0xA3, CHR 0xD0, CHR 0xBA, CHR 0xD1, CHR 0x80, CHR 0xD0, CHR 0xB0, CHR
      0xD1, CHR 0x97, CHR 0xD0, CHR 0xBD, CHR 0xD0, CHR 0xB0, CHR 0x20, CHR 0xD0, CHR
      0xBF, CHR 0xD0, CHR 0xBE, CHR 0xD0, CHR 0xBD, CHR 0xD0, CHR 0xB0, CHR 0xD0, CHR
      0xB4, CHR 0x20, CHR 0xD1, CHR 0x83, CHR 0xD1, CHR 0x81, CHR 0xD0, CHR 0xB5, CHR
      0x21]
    ]"

definition sentences_english :: "string list" where
  "sentences_english =
    [
     ''Hello, world!'',
     ''How are you?'',
     ''I'm learning Rust programming.'',
     ''It's very interesting.'',
     ''Thank you for your help.'',
     ''Have a nice day!'',
     ''Goodbye.'',
     ''Glory to Ukraine!'',
     ''Glory to the heroes!'',
     ''Ukraine above all!''
    ]"

definition testing_main :: "'a world_scheme \<Rightarrow> (error + unit) \<times> 'a world_scheme" where
  "testing_main w =
     (case for_each call sentences_ukrainian w of
        (Inl e, w1) \<Rightarrow> (Inl e, w1)
      | (Inr u, w1) \<Rightarrow> for_each call_back sentences_english w1)"

section \<open>The script testing-highload\<close>

definition highload_call :: "string \<Rightarrow> real \<Rightarrow> state \<Rightarrow> (error + real) \<times> state" where
  "highload_call text s0 s =
     (case requests_post addr
             (JObject [(''text'', JString text),
                       (''source_lang'', JString ''uk''),
                       (''target_lang'', JString ''en'')]) s of
        (Inl e, s1) \<Rightarrow> (Inl e, s1)
      | (Inr resp, s1) \<Rightarrow>
          (case response_json resp of
             Inl e \<Rightarrow> (Inl e, s1)
           | Inr d \<Rightarrow>
               (let (t, s2) = time_time s1;
                    elapsed = t - s0
                in (Inr elapsed, print_line (PrintElapsed elapsed d) s2))))"

definition dataset_path :: string where
  "dataset_path = ''hf://datasets/speech-uk/text-to-speech-sentences/**/*.csv''"

definition sentence :: "row \<Rightarrow> string option" where
  "sentence row = map_of row ''sentence''"

text \<open>
  \<^verbatim>\<open>for row in df.iter_rows(named=True)\<close>: the clock is read first, then
  \<^verbatim>\<open>row["sentence"]\<close> is looked up (a \<^verbatim>\<open>KeyError\<close> when the column is absent),
  then \<open>call\<close> runs, and only when it returns is its result appended to \<^verbatim>\<open>times\<close>.
\<close>

fun for_rows :: "dataframe \<Rightarrow> state \<Rightarrow> (error + unit) \<times> state" where
  "for_rows [] s = (Inr (), s)"
| "for_rows (row # rest) s =
     (let (s0, s1) = time_time s in
      case sentence row of
        None \<Rightarrow> (Inl KeyError, s1)
      | Some text \<Rightarrow>
          (case highload_call text s0 s1 of
             (Inl e, s2) \<Rightarrow> (Inl e, s2)
           | (Inr elapsed, s2) \<Rightarrow>
               for_rows rest (s2\<lparr>times' := times' s2 @ [elapsed]\<rparr>)))"

text \<open>
  The script body. \<open>read_csv\<close> is what \<^verbatim>\<open>pl.read_csv\<close> does on a path: it
  raises or returns the rows. \<^verbatim>\<open>sum(times) / len(times)\<close> raises
  \<^verbatim>\<open>ZeroDivisionError\<close> when \<^verbatim>\<open>times\<close> is empty.
\<close>

definition highload_main ::
  "(string \<Rightarrow> error + dataframe) \<Rightarrow> state \<Rightarrow> (error + unit) \<times> state" where
  "highload_main read_csv s =
     (case read_csv dataset_path of
        Inl e \<Rightarrow> (Inl e, s)
      | Inr df \<Rightarrow>
          (case for_rows df (s\<lparr>times' := []\<rparr>) of
             (Inl e, s1) \<Rightarrow> (Inl e, s1)
           | (Inr u, s1) \<Rightarrow>
               (if length (times' s1) = 0 then (Inl ZeroDivisionError, s1)
                else (Inr (),
                      print_line
                        (PrintAverage (sum_list (times' s1) / real (length (times' s1))))
                        s1))))"

section \<open>Vocabulary of the statements\<close>

text \<open>
  The request that each of \<open>call\<close>, \<open>call_back\<close> and \<open>highload_call\<close> builds,
  as a function of the sentence and of the two language codes.
\<close>

definition translate_request :: "string \<Rightarrow> string \<Rightarrow> string \<Rightarrow> request" where
  "translate_request src tgt text =
     \<lparr>http_method = POST, url = addr,
      body = JObject [(''text'', JString text),
                      (''source_lang'', JString src),
                      (''target_lang'', JString tgt)]\<rparr>"

text \<open>
  What the \<open>i\<close>-th round trip yields on request \<open>r\<close>: \<open>Some d\<close> when
  \<^verbatim>\<open>requests.post\<close> returns and \<^verbatim>\<open>resp.json()\<close> parses to \<open>d\<close>,
  \<open>None\<close> when either raises.
\<close>

definition round_trip :: "'a world_scheme \<Rightarrow> nat \<Rightarrow> request \<Rightarrow> json option" where
  "round_trip w i r = (case service w i r of None \<Rightarrow> None | Some resp \<Rightarrow> payload resp)"

text \<open>The requests handed to the transport between world \<open>w\<close> and a later world \<open>w'\<close>.\<close>

definition issued :: "'a world_scheme \<Rightarrow> 'b world_scheme \<Rightarrow> request list" where
  "issued w w' = drop (length (wire w)) (wire w')"

text \<open>
  The elapsed time that the \<open>i\<close>-th iteration of the loop of
  \<^verbatim>\<open>testing_highload.py\<close> computes when the loop starts in world \<open>w\<close> and no
  iteration before it raises: each iteration reads the clock twice.
\<close>

definition elapsed_at :: "'a world_scheme \<Rightarrow> nat \<Rightarrow> real" where
  "elapsed_at w i = clock w (ticks w + 2 * i + 1) - clock w (ticks w + 2 * i)"

text \<open>
  Every row of \<open>df\<close> has a \<^verbatim>\<open>"sentence"\<close> field and the round trips numbered
  \<open>i\<close>, \<open>i + 1\<close>, ... succeed on the requests for these rows, one after the other.
\<close>

fun succeeds_from :: "'a world_scheme \<Rightarrow> nat \<Rightarrow> dataframe \<Rightarrow> bool" where
  "succeeds_from w i [] = True"
| "succeeds_from w i (row # rest) =
     (case sentence row of
        None \<Rightarrow> False
      | Some t \<Rightarrow>
          round_trip w i (translate_request ''uk'' ''en'' t) \<noteq> None \<and>
          succeeds_from w (Suc i) rest)"

text \<open>The same, for a run that starts in \<open>w\<close>: its first round trip is number \<open>length (wire w)\<close>.\<close>

definition succeeds_on :: "'a world_scheme \<Rightarrow> dataframe \<Rightarrow> bool" where
  "succeeds_on w df = succeeds_from w (length (wire w)) df"

text \<open>What has been printed between world \<open>w\<close> and a later world \<open>w'\<close>.\<close>

definition printed :: "'a world_scheme \<Rightarrow> 'b world_scheme \<Rightarrow> line list" where
  "printed w w' = drop (length (stdout w)) (stdout w')"

fun is_average :: "line \<Rightarrow> bool" where
  "is_average (PrintAverage m) = True"
| "is_average l = False"

text \<open>Reading a request as the service does: a field of the JSON body, the text field.\<close>

definition body_field :: "string \<Rightarrow> request \<Rightarrow> json option" where
  "body_field k r = (case body r of JObject fs \<Rightarrow> map_of fs k | JString v \<Rightarrow> None)"

definition request_text :: "request \<Rightarrow> string option" where
  "request_text r =
     (case body_field ''text'' r of Some (JString t) \<Rightarrow> Some t | _ \<Rightarrow> None)"

text \<open>The language codes of a request: its \<^verbatim>\<open>source_lang\<close> and \<^verbatim>\<open>target_lang\<close> fields.\<close>

definition direction :: "request \<Rightarrow> json option \<times> json option" where
  "direction r = (body_field ''source_lang'' r, body_field ''target_lang'' r)"

text \<open>
  A request is a POST to \<open>addr\<close> whose body is an object of exactly the three string
  fields \<^verbatim>\<open>text\<close>, \<^verbatim>\<open>source_lang\<close>, \<^verbatim>\<open>target_lang\<close>.
\<close>

definition three_fields :: "request \<Rightarrow> bool" where
  "three_fields r =
     (case body r of
        JObject [(k1, JString t), (k2, JString a), (k3, JString b)] \<Rightarrow>
          http_method r = POST \<and> url r = addr \<and>
          k1 = ''text'' \<and> k2 = ''source_lang'' \<and> k3 = ''target_lang''
      | _ \<Rightarrow> False)"

text \<open>
  The state in which the loop of \<^verbatim>\<open>testing_highload.py\<close> ends when it starts in
  \<open>s\<close> and every round trip succeeds.
\<close>

definition final_state :: "state \<Rightarrow> dataframe \<Rightarrow> state" where
  "final_state s df =
     s\<lparr>ticks := ticks s + 2 * length df,
       wire := wire s @ map (\<lambda>row. translate_request ''uk'' ''en'' (the (sentence row))) df,
       stdout := stdout s @
         map (\<lambda>i. PrintElapsed (elapsed_at s i)
                (the (round_trip s (length (wire s) + i)
                   (translate_request ''uk'' ''en'' (the (sentence (df ! i)))))))
             [0..<length df],
       times' := times' s @ map (elapsed_at s) [0..<length df]\<rparr>"

section \<open>Stub worlds for the concrete checks\<close>

definition stub_reply :: response where
  "stub_reply =
     \<lparr>status_code = 200,
      payload = Some (JObject [(''translated_text'', JString ''Hello, world!'')])\<rparr>"

text \<open>A clock that advances by a twentieth of a second per reading, a service that always answers.\<close>

definition stub_world :: state where
  "stub_world =
     \<lparr>clock = (\<lambda>k. real k / 20), ticks = 0, service = (\<lambda>i r. Some stub_reply),
      wire = [], stdout = [], times' = []\<rparr>"

text \<open>The same world, but the third call of \<^verbatim>\<open>requests.post\<close> raises.\<close>

definition failing_world :: state where
  "failing_world =
     \<lparr>clock = (\<lambda>k. real k / 20), ticks = 0,
      service = (\<lambda>i r. if i = 2 then None else Some stub_reply),
      wire = [], stdout = [], times' = []\<rparr>"

definition five_rows :: dataframe where
  "five_rows =
     [[(''id'', ''1''), (''sentence'', ''a'')],
      [(''id'', ''2''), (''sentence'', ''b'')],
      [(''id'', ''3''), (''sentence'', ''c'')],
      [(''id'', ''4''), (''sentence'', ''d'')],
      [(''id'', ''5''), (''sentence'', ''e'')]]"

text \<open>The same sentences in rows that differ in every other field.\<close>

definition five_other_rows :: dataframe where
  "five_other_rows =
     [[(''sentence'', ''a''), (''speaker'', ''x'')],
      [(''sentence'', ''b''), (''speaker'', ''y'')],
      [(''sentence'', ''c'')],
      [(''speaker'', ''z''), (''sentence'', ''d'')],
      [(''sentence'', ''e''), (''id'', ''0'')]]"

definition stub_csv :: "string \<Rightarrow> error + dataframe" where
  "stub_csv path = Inr five_rows"

definition other_csv :: "string \<Rightarrow> error + dataframe" where
  "other_csv path = Inr five_other_rows"

definition empty_csv :: "string \<Rightarrow> error + dataframe" where
  "empty_csv path = Inr []"

definition missing_csv :: "string \<Rightarrow> error + dataframe" where
  "missing_csv path = Inl DataUnavailable"

section \<open>One iteration of the measuring loop\<close>

lemma highload_call_ok:
  assumes "round_trip s (length (wire s)) (translate_request ''uk'' ''en'' t) = Some d"
  shows "highload_call t s0 s =
           (Inr (clock s (ticks s) - s0),
            s\<lparr>ticks := Suc (ticks s), wire := wire s @ [translate_request ''uk'' ''en'' t],
              stdout := stdout s @ [PrintElapsed (clock s (ticks s) - s0) d]\<rparr>)"
  using assms
  by (auto simp add: highload_call_def requests_post_def response_json_def round_trip_def
      translate_request_def time_time_def print_line_def Let_def split: option.splits)

lemma highload_call_fail:
  assumes "round_trip s (length (wire s)) (translate_request ''uk'' ''en'' t) = None"
  shows "highload_call t s0 s =
           (Inl RequestFailed, s\<lparr>wire := wire s @ [translate_request ''uk'' ''en'' t]\<rparr>)"
  using assms
  by (auto simp add: highload_call_def requests_post_def response_json_def round_trip_def
      translate_request_def Let_def split: option.splits)

lemma for_rows_Cons_ok:
  assumes "sentence row = Some t"
    and "round_trip s (length (wire s)) (translate_request ''uk'' ''en'' t) = Some d"
  shows "for_rows (row # rest) s =
           for_rows rest
             (s\<lparr>ticks := Suc (Suc (ticks s)),
                wire := wire s @ [translate_request ''uk'' ''en'' t],
                stdout := stdout s @ [PrintElapsed (clock s (Suc (ticks s)) - clock s (ticks s)) d],
                times' := times' s @ [clock s (Suc (ticks s)) - clock s (ticks s)]\<rparr>)"
proof -
  let ?s1 = "s\<lparr>ticks := Suc (ticks s)\<rparr>"
  have rt: "round_trip ?s1 (length (wire ?s1)) (translate_request ''uk'' ''en'' t) = Some d"
    using assms(2) by (simp add: round_trip_def)
  show ?thesis
    using assms(1) highload_call_ok [OF rt, of "clock s (ticks s)"]
    by (simp add: time_time_def)
qed

lemma for_rows_Cons_fail:
  assumes "sentence row = Some t"
    and "round_trip s (length (wire s)) (translate_request ''uk'' ''en'' t) = None"
  shows "for_rows (row # rest) s =
           (Inl RequestFailed,
            s\<lparr>ticks := Suc (ticks s), wire := wire s @ [translate_request ''uk'' ''en'' t]\<rparr>)"
proof -
  let ?s1 = "s\<lparr>ticks := Suc (ticks s)\<rparr>"
  have rt: "round_trip ?s1 (length (wire ?s1)) (translate_request ''uk'' ''en'' t) = None"
    using assms(2) by (simp add: round_trip_def)
  show ?thesis
    using assms(1) highload_call_fail [OF rt, of "clock s (ticks s)"]
    by (simp add: time_time_def)
qed

lemma for_rows_Cons_KeyError:
  assumes "sentence row = None"
  shows "for_rows (row # rest) s = (Inl KeyError, s\<lparr>ticks := Suc (ticks s)\<rparr>)"
  using assms by (simp add: time_time_def)

declare for_rows.simps(2) [simp del]

text \<open>The requests issued by the loop are those of a prefix of the rows, in order.\<close>

lemma for_rows_wire:
  "\<exists>ts. wire (snd (for_rows df s)) = wire s @ map (translate_request ''uk'' ''en'') ts
        \<and> prefix (map Some ts) (map sentence df)"
proof (induction df arbitrary: s)
  case Nil
  show ?case by simp
next
  case (Cons row rest)
  show ?case
  proof (cases "sentence row")
    case None
    then have "wire (snd (for_rows (row # rest) s)) = wire s @ map (translate_request ''uk'' ''en'') []"
      by (simp add: for_rows_Cons_KeyError)
    then show ?thesis by (metis list.simps(8) Nil_prefix)
  next
    case (Some t)
    show ?thesis
    proof (cases "round_trip s (length (wire s)) (translate_request ''uk'' ''en'' t)")
      case None
      with Some have "wire (snd (for_rows (row # rest) s))
          = wire s @ map (translate_request ''uk'' ''en'') [t]
          \<and> prefix (map Some [t]) (map sentence (row # rest))"
        by (simp add: for_rows_Cons_fail)
      then show ?thesis by blast
    next
      case (Some d)
      let ?s2 = "s\<lparr>ticks := Suc (Suc (ticks s)),
                wire := wire s @ [translate_request ''uk'' ''en'' t],
                stdout := stdout s @ [PrintElapsed (clock s (Suc (ticks s)) - clock s (ticks s)) d],
                times' := times' s @ [clock s (Suc (ticks s)) - clock s (ticks s)]\<rparr>"
      from Cons.IH [of ?s2] obtain ts where
        ts: "wire (snd (for_rows rest ?s2)) = wire ?s2 @ map (translate_request ''uk'' ''en'') ts"
          "prefix (map Some ts) (map sentence rest)"
        by blast
      have "for_rows (row # rest) s = for_rows rest ?s2"
        using \<open>sentence row = Some t\<close> Some by (rule for_rows_Cons_ok)
      with ts \<open>sentence row = Some t\<close>
      have "wire (snd (for_rows (row # rest) s))
          = wire s @ map (translate_request ''uk'' ''en'') (t # ts)
          \<and> prefix (map Some (t # ts)) (map sentence (row # rest))"
        by simp
      then show ?thesis by blast
    qed
  qed
qed

section \<open>A run in which every round trip succeeds\<close>

lemma succeeds_from_service:
  "service w' = service w \<Longrightarrow> succeeds_from w' i df = succeeds_from w i df"
  by (induction df arbitrary: i) (simp_all add: round_trip_def split: option.splits)

lemma for_rows_ok:
  assumes "succeeds_on s df"
  shows "for_rows df s = (Inr (), final_state s df)"
  using assms
proof (induction df arbitrary: s)
  case Nil
  show ?case by (simp add: final_state_def)
next
  case (Cons row rest)
  from Cons.prems obtain t d where t: "sentence row = Some t"
    and d: "round_trip s (length (wire s)) (translate_request ''uk'' ''en'' t) = Some d"
    and rest: "succeeds_from s (Suc (length (wire s))) rest"
    by (auto simp add: succeeds_on_def split: option.splits)
  let ?s2 = "s\<lparr>ticks := Suc (Suc (ticks s)),
                wire := wire s @ [translate_request ''uk'' ''en'' t],
                stdout := stdout s @ [PrintElapsed (clock s (Suc (ticks s)) - clock s (ticks s)) d],
                times' := times' s @ [clock s (Suc (ticks s)) - clock s (ticks s)]\<rparr>"
  have step: "for_rows (row # rest) s = for_rows rest ?s2"
    using t d by (rule for_rows_Cons_ok)
  have "succeeds_from ?s2 (Suc (length (wire s))) rest = succeeds_from s (Suc (length (wire s))) rest"
    by (rule succeeds_from_service) simp
  with rest have "succeeds_on ?s2 rest"
    by (simp add: succeeds_on_def)
  then have "for_rows rest ?s2 = (Inr (), final_state ?s2 rest)"
    by (rule Cons.IH)
  moreover have "final_state ?s2 rest = final_state s (row # rest)"
    using t d
    by (simp add: final_state_def elapsed_at_def round_trip_def map_upt_Suc del: upt_Suc)
  ultimately show ?case using step by simp
qed

section \<open>Aborted runs, the clock, and the fields the loop reads\<close>

lemma for_rows_append:
  "for_rows (xs @ ys) s =
     (case for_rows xs s of (Inl e, s1) \<Rightarrow> (Inl e, s1) | (Inr u, s1) \<Rightarrow> for_rows ys s1)"
proof (induction xs arbitrary: s)
  case Nil
  show ?case by simp
next
  case (Cons row rest)
  show ?case
  proof (cases "sentence row")
    case None
    then show ?thesis by (simp add: for_rows_Cons_KeyError)
  next
    case (Some t)
    show ?thesis
    proof (cases "round_trip s (length (wire s)) (translate_request ''uk'' ''en'' t)")
      case None
      with Some show ?thesis by (simp add: for_rows_Cons_fail)
    next
      case (Some d)
      with \<open>sentence row = Some t\<close> show ?thesis
        by (simp add: for_rows_Cons_ok Cons.IH)
    qed
  qed
qed

lemma for_rows_abort:
  assumes k: "k < length df"
    and before: "succeeds_on s (take k df)"
    and t: "sentence (df ! k) = Some t"
    and fails: "round_trip s (length (wire s) + k) (translate_request ''uk'' ''en'' t) = None"
  shows "for_rows df s =
           (Inl RequestFailed,
            (final_state s (take k df))
              \<lparr>ticks := Suc (ticks s + 2 * k),
               wire := wire (final_state s (take k df)) @ [translate_request ''uk'' ''en'' t]\<rparr>)"
proof -
  let ?s1 = "final_state s (take k df)"
  have df: "df = take k df @ (df ! k # drop (Suc k) df)"
    using k by (simp add: Cons_nth_drop_Suc)
  have len: "length (take k df) = k" using k by simp
  have w1: "length (wire ?s1) = length (wire s) + k" and s1: "service ?s1 = service s"
    and t1: "ticks ?s1 = ticks s + 2 * k"
    using len by (simp_all add: final_state_def)
  have "round_trip ?s1 (length (wire ?s1)) (translate_request ''uk'' ''en'' t) = None"
    using fails w1 s1 by (simp add: round_trip_def)
  with t have "for_rows (df ! k # drop (Suc k) df) ?s1 =
      (Inl RequestFailed,
       ?s1\<lparr>ticks := Suc (ticks ?s1), wire := wire ?s1 @ [translate_request ''uk'' ''en'' t]\<rparr>)"
    by (rule for_rows_Cons_fail)
  moreover have "for_rows (take k df) s = (Inr (), ?s1)"
    using before by (rule for_rows_ok)
  moreover have "for_rows df s =
      (case for_rows (take k df) s of (Inl e, s1) \<Rightarrow> (Inl e, s1)
       | (Inr u, s1) \<Rightarrow> for_rows (df ! k # drop (Suc k) df) s1)"
    using for_rows_append [of "take k df" "df ! k # drop (Suc k) df" s] df by simp
  ultimately show ?thesis using t1 by simp
qed

lemma for_rows_nonneg:
  assumes "mono (clock s)" and "\<forall>e\<in>set (times' s). 0 \<le> e"
  shows "\<forall>e\<in>set (times' (snd (for_rows df s))). 0 \<le> e"
  using assms
proof (induction df arbitrary: s)
  case Nil
  then show ?case by simp
next
  case (Cons row rest)
  show ?case
  proof (cases "sentence row")
    case None
    then show ?thesis using Cons.prems by (simp add: for_rows_Cons_KeyError)
  next
    case (Some t)
    show ?thesis
    proof (cases "round_trip s (length (wire s)) (translate_request ''uk'' ''en'' t)")
      case None
      with Some show ?thesis using Cons.prems by (simp add: for_rows_Cons_fail)
    next
      case (Some d)
      let ?s2 = "s\<lparr>ticks := Suc (Suc (ticks s)),
                wire := wire s @ [translate_request ''uk'' ''en'' t],
                stdout := stdout s @ [PrintElapsed (clock s (Suc (ticks s)) - clock s (ticks s)) d],
                times' := times' s @ [clock s (Suc (ticks s)) - clock s (ticks s)]\<rparr>"
      have step: "for_rows (row # rest) s = for_rows rest ?s2"
        using \<open>sentence row = Some t\<close> Some by (rule for_rows_Cons_ok)
      have "clock s (ticks s) \<le> clock s (Suc (ticks s))"
        using Cons.prems(1) by (simp add: monoD)
      then have "\<forall>e\<in>set (times' ?s2). 0 \<le> e"
        using Cons.prems(2) by simp
      moreover have "mono (clock ?s2)" using Cons.prems(1) by simp
      ultimately have "\<forall>e\<in>set (times' (snd (for_rows rest ?s2))). 0 \<le> e"
        by (rule Cons.IH [rotated])
      then show ?thesis using step by simp
    qed
  qed
qed

lemma for_rows_sentence_cong:
  assumes "map sentence df1 = map sentence df2"
  shows "for_rows df1 s = for_rows df2 s"
  using assms
proof (induction df1 arbitrary: df2 s)
  case Nil
  then show ?case by simp
next
  case (Cons row rest)
  then obtain row2 rest2 where df2: "df2 = row2 # rest2"
    and hd: "sentence row = sentence row2" and tl: "map sentence rest = map sentence rest2"
    by (cases df2) auto
  have "for_rows rest s' = for_rows rest2 s'" for s'
    using tl by (rule Cons.IH)
  then have eq: "for_rows rest = for_rows rest2" by (rule ext)
  show ?case
    unfolding df2 for_rows.simps(2) hd eq ..
qed

section \<open>The measuring script as a whole\<close>

lemma succeeds_on_times [simp]: "succeeds_on (s\<lparr>times' := ts\<rparr>) df = succeeds_on s df"
  using succeeds_from_service [of "s\<lparr>times' := ts\<rparr>" s "length (wire s)" df]
  by (simp add: succeeds_on_def)

lemma elapsed_at_times [simp]: "elapsed_at (s\<lparr>times' := ts\<rparr>) = elapsed_at s"
  by (rule ext) (simp add: elapsed_at_def)

lemma highload_main_ok:
  assumes "read_csv dataset_path = Inr df" and "df \<noteq> []" and "succeeds_on s df"
  shows "highload_main read_csv s =
           (Inr (),
            print_line
              (PrintAverage (sum_list (map (elapsed_at s) [0..<length df]) / real (length df)))
              (final_state (s\<lparr>times' := []\<rparr>) df))"
proof -
  have "for_rows df (s\<lparr>times' := []\<rparr>) = (Inr (), final_state (s\<lparr>times' := []\<rparr>) df)"
    using assms(3) by (intro for_rows_ok) simp
  moreover have "times' (final_state (s\<lparr>times' := []\<rparr>) df) = map (elapsed_at s) [0..<length df]"
    by (simp add: final_state_def)
  ultimately show ?thesis
    using assms(1,2) by (simp add: highload_main_def)
qed

lemma highload_main_abort:
  assumes "read_csv dataset_path = Inr df" and "k < length df"
    and "succeeds_on s (take k df)" and "sentence (df ! k) = Some t"
    and "round_trip s (length (wire s) + k) (translate_request ''uk'' ''en'' t) = None"
  shows "highload_main read_csv s =
           (Inl RequestFailed,
            (final_state (s\<lparr>times' := []\<rparr>) (take k df))
              \<lparr>ticks := Suc (ticks s + 2 * k),
               wire := wire (final_state (s\<lparr>times' := []\<rparr>) (take k df))
                         @ [translate_request ''uk'' ''en'' t]\<rparr>)"
proof -
  let ?s = "s\<lparr>times' := []\<rparr>"
  have "round_trip ?s (length (wire ?s) + k) (translate_request ''uk'' ''en'' t) = None"
    using assms(5) by (simp add: round_trip_def)
  moreover have "succeeds_on ?s (take k df)" using assms(3) by simp
  ultimately have "for_rows df ?s =
      (Inl RequestFailed,
       (final_state ?s (take k df))
         \<lparr>ticks := Suc (ticks ?s + 2 * k),
          wire := wire (final_state ?s (take k df)) @ [translate_request ''uk'' ''en'' t]\<rparr>)"
    using assms(2,4) by (intro for_rows_abort)
  then show ?thesis using assms(1) by (simp add: highload_main_def)
qed

text \<open>
  Claim C1 says that on an empty sentence sequence the run yields a summary with count 0
  and never divides. The script has no such guard: on a dataset without rows the loop
  records nothing and \<^verbatim>\<open>sum(times) / len(times)\<close> raises \<^verbatim>\<open>ZeroDivisionError\<close>;
  no average is printed.
\<close>

theorem highload_main_empty_dataset:
  "fst (highload_main empty_csv stub_world) = Inl ZeroDivisionError
   \<and> printed stub_world (snd (highload_main empty_csv stub_world)) = []"
  by (simp add: highload_main_def empty_csv_def stub_world_def printed_def)

text \<open>
  Claim C2: when the first \<open>k\<close> round trips succeed and the next one raises, the script
  ends with \<open>RequestFailed\<close>; \<^verbatim>\<open>times\<close> holds exactly the \<open>k\<close> measurements of the
  rows before the failing one, \<open>k + 1\<close> requests have been issued (none for a later row),
  and no average has been printed.
\<close>

theorem highload_main_aborts_on_failure:
  assumes "read_csv dataset_path = Inr df" and "k < length df"
    and "succeeds_on s (take k df)" and "sentence (df ! k) = Some t"
    and "round_trip s (length (wire s) + k) (translate_request ''uk'' ''en'' t) = None"
  shows "fst (highload_main read_csv s) = Inl RequestFailed
       \<and> times' (snd (highload_main read_csv s)) = map (elapsed_at s) [0..<k]
       \<and> length (issued s (snd (highload_main read_csv s))) = Suc k
       \<and> filter is_average (printed s (snd (highload_main read_csv s))) = []"
proof -
  have len: "min (length df) k = k" using assms(2) by simp
  show ?thesis
    unfolding highload_main_abort [of read_csv df k s t, OF assms]
    by (simp add: final_state_def issued_def printed_def len filter_empty_conv)
qed


text \<open>
  Claim C7: when \<^verbatim>\<open>pl.read_csv\<close> raises, the script ends with that error in the state
  it started in: no request has been issued, the clock has not been read, nothing has
  been printed or recorded.
\<close>

theorem highload_main_data_unavailable:
  assumes "read_csv dataset_path = Inl DataUnavailable"
  shows "highload_main read_csv s = (Inl DataUnavailable, s)
       \<and> issued s (snd (highload_main read_csv s)) = []
       \<and> printed s (snd (highload_main read_csv s)) = []"
  using assms by (simp add: highload_main_def issued_def printed_def)

text \<open>
  Claim C9: under a monotone clock every value in \<^verbatim>\<open>times\<close> is non-negative, however
  the run ends.
\<close>

theorem highload_elapsed_nonnegative:
  assumes "read_csv dataset_path = Inr df" and "mono (clock s)"
  shows "\<forall>e\<in>set (times' (snd (highload_main read_csv s))). 0 \<le> e"
proof -
  have "\<forall>e\<in>set (times' (snd (for_rows df (s\<lparr>times' := []\<rparr>)))). 0 \<le> e"
    using assms(2) by (intro for_rows_nonneg) simp_all
  then show ?thesis
    using assms(1)
    by (simp add: highload_main_def print_line_def split: prod.splits sum.splits)
qed

text \<open>
  Claim C10: two datasets whose rows agree, in order, on the \<^verbatim>\<open>"sentence"\<close> field
  give the same run from the same start: the same result, requests, output and
  measurements.
\<close>

theorem highload_depends_on_sentences_only:
  assumes "read_csv1 dataset_path = Inr df1" and "read_csv2 dataset_path = Inr df2"
    and "map sentence df1 = map sentence df2"
  shows "highload_main read_csv1 s = highload_main read_csv2 s"
  using assms(1,2) for_rows_sentence_cong [OF assms(3)]
  by (simp add: highload_main_def)

lemma succeeds_from_sentence:
  "succeeds_from w i df \<Longrightarrow> \<forall>row\<in>set df. sentence row \<noteq> None"
  by (induction df arbitrary: i) (auto split: option.splits)

lemma request_text_translate [simp]: "request_text (translate_request a b t) = Some t"
  by (simp add: request_text_def body_field_def translate_request_def)

text \<open>
  Claim C5: the texts of the requests issued by \<^verbatim>\<open>testing_highload.py\<close>, in the order
  of issue, are the \<^verbatim>\<open>"sentence"\<close> fields of an initial segment of the rows, so the
  \<open>i\<close>-th request carries the \<open>i\<close>-th sentence; when every round trip succeeds they are
  the sentences of all the rows.
\<close>

theorem highload_requests_follow_input_order:
  assumes "read_csv dataset_path = Inr df"
  shows "prefix (map request_text (issued s (snd (highload_main read_csv s)))) (map sentence df)
       \<and> (succeeds_on s df \<longrightarrow>
            map request_text (issued s (snd (highload_main read_csv s))) = map sentence df)"
proof -
  let ?s = "s\<lparr>times' := []\<rparr>"
  have w: "wire (snd (highload_main read_csv s)) = wire (snd (for_rows df ?s))"
    using assms by (simp add: highload_main_def print_line_def split: prod.splits sum.splits)
  obtain ts where ts: "wire (snd (for_rows df ?s)) = wire ?s @ map (translate_request ''uk'' ''en'') ts"
    and pre: "prefix (map Some ts) (map sentence df)"
    using for_rows_wire [of df ?s] by blast
  have iss: "map request_text (issued s (snd (highload_main read_csv s))) = map Some ts"
    using w ts by (simp add: issued_def comp_def)
  have "map request_text (issued s (snd (highload_main read_csv s))) = map sentence df"
    if ok: "succeeds_on s df"
  proof -
    have "for_rows df ?s = (Inr (), final_state ?s df)"
      using ok by (intro for_rows_ok) simp
    then have "issued s (snd (highload_main read_csv s))
        = map (\<lambda>row. translate_request ''uk'' ''en'' (the (sentence row))) df"
      using w by (simp add: issued_def final_state_def)
    moreover have "\<forall>row\<in>set df. sentence row \<noteq> None"
      using ok unfolding succeeds_on_def by (rule succeeds_from_sentence)
    ultimately show ?thesis by (auto simp add: comp_def)
  qed
  with pre iss show ?thesis by simp
qed

section \<open>The requests of both scripts\<close>

lemma call_wire: "wire (snd (call t w)) = wire w @ [translate_request ''en'' ''uk'' t]"
  by (simp add: call_def requests_post_def response_json_def print_line_def
      translate_request_def Let_def split: option.splits)

lemma call_back_wire: "wire (snd (call_back t w)) = wire w @ [translate_request ''uk'' ''en'' t]"
  by (simp add: call_back_def requests_post_def response_json_def print_line_def
      translate_request_def Let_def split: option.splits)

lemma for_each_wire:
  assumes "\<And>t w. wire (snd (f t w)) = wire w @ [g t]"
  shows "\<exists>ts. wire (snd (for_each f xs w)) = wire w @ map g ts \<and> prefix ts xs"
proof (induction xs arbitrary: w)
  case Nil
  show ?case by simp
next
  case (Cons x xs)
  obtain r w1 where f: "f x w = (r, w1)" by (cases "f x w")
  with assms [of x w] have w1: "wire w1 = wire w @ [g x]" by simp
  show ?case
  proof (cases r)
    case (Inl e)
    with f w1 have "wire (snd (for_each f (x # xs) w)) = wire w @ map g [x] \<and> prefix [x] (x # xs)"
      by simp
    then show ?thesis by blast
  next
    case (Inr u)
    from Cons.IH [of w1] obtain ts where
      "wire (snd (for_each f xs w1)) = wire w1 @ map g ts" "prefix ts xs" by blast
    with f w1 Inr have "wire (snd (for_each f (x # xs) w)) = wire w @ map g (x # ts)
        \<and> prefix (x # ts) (x # xs)"
      by simp
    then show ?thesis by blast
  qed
qed

lemma issued_for_each:
  assumes "\<And>t w. wire (snd (f t w)) = wire w @ [g t]"
  shows "set (issued w (snd (for_each f xs w))) \<subseteq> g ` set xs"
proof -
  obtain ts where "wire (snd (for_each f xs w)) = wire w @ map g ts" and "prefix ts xs"
    using for_each_wire [of f g xs w, OF assms] by blast
  then show ?thesis using set_mono_prefix [of ts xs] by (auto simp add: issued_def)
qed

lemma issued_testing_main:
  "set (issued w (snd (testing_main w)))
     \<subseteq> translate_request ''en'' ''uk'' ` set sentences_ukrainian
       \<union> translate_request ''uk'' ''en'' ` set sentences_english"
proof -
  obtain r w1 where p1: "for_each call sentences_ukrainian w = (r, w1)"
    by (cases "for_each call sentences_ukrainian w")
  obtain ts where ts: "wire w1 = wire w @ map (translate_request ''en'' ''uk'') ts"
    and pre: "prefix ts sentences_ukrainian"
    using for_each_wire [of call "translate_request ''en'' ''uk''" sentences_ukrainian w, OF call_wire]
      p1 by auto
  have sub: "set ts \<subseteq> set sentences_ukrainian" using pre by (rule set_mono_prefix)
  show ?thesis
  proof (cases r)
    case (Inl e)
    with p1 ts sub show ?thesis by (auto simp add: testing_main_def issued_def)
  next
    case (Inr u)
    obtain us where us: "wire (snd (for_each call_back sentences_english w1))
        = wire w1 @ map (translate_request ''uk'' ''en'') us"
      and pre2: "prefix us sentences_english"
      using for_each_wire [of call_back "translate_request ''uk'' ''en''" sentences_english w1,
          OF call_back_wire] by blast
    have "set us \<subseteq> set sentences_english" using pre2 by (rule set_mono_prefix)
    with p1 ts us sub Inr show ?thesis by (auto simp add: testing_main_def issued_def)
  qed
qed

lemma issued_highload_main:
  "set (issued s (snd (highload_main read_csv s)))
     \<subseteq> (case read_csv dataset_path of
          Inl e \<Rightarrow> {}
        | Inr df \<Rightarrow> {translate_request ''uk'' ''en'' t | t. Some t \<in> sentence ` set df})"
proof (cases "read_csv dataset_path")
  case (Inl e)
  then show ?thesis by (simp add: highload_main_def issued_def)
next
  case (Inr df)
  let ?s = "s\<lparr>times' := []\<rparr>"
  have w: "wire (snd (highload_main read_csv s)) = wire (snd (for_rows df ?s))"
    using Inr by (simp add: highload_main_def print_line_def split: prod.splits sum.splits)
  obtain ts where ts: "wire (snd (for_rows df ?s)) = wire ?s @ map (translate_request ''uk'' ''en'') ts"
    and pre: "prefix (map Some ts) (map sentence df)"
    using for_rows_wire [of df ?s] by blast
  have "Some ` set ts \<subseteq> sentence ` set df"
    using set_mono_prefix [OF pre] by simp
  then have "\<forall>t\<in>set ts. Some t \<in> sentence ` set df" by blast
  with w ts Inr show ?thesis by (auto simp add: issued_def)
qed

lemma direction_translate [simp]:
  "direction (translate_request a b t) = (Some (JString a), Some (JString b))"
  by (simp add: direction_def body_field_def translate_request_def)

lemma three_fields_translate [simp]: "three_fields (translate_request a b t)"
  by (simp add: three_fields_def translate_request_def)

text \<open>
  Claim C6: every request of a pass over \<open>call\<close> has the codes en, uk; every request of
  a pass over \<open>call_back\<close> has the codes uk, en; every request of
  \<^verbatim>\<open>testing_highload.py\<close> has the codes uk, en.
\<close>

theorem direction_fixed_within_pass:
  "(\<forall>r\<in>set (issued w (snd (for_each call xs w))).
      direction r = (Some (JString ''en''), Some (JString ''uk'')))
   \<and> (\<forall>r\<in>set (issued w (snd (for_each call_back xs w))).
      direction r = (Some (JString ''uk''), Some (JString ''en'')))
   \<and> (\<forall>r\<in>set (issued s (snd (highload_main read_csv s))).
      direction r = (Some (JString ''uk''), Some (JString ''en'')))"
proof -
  have "\<forall>r\<in>set (issued w (snd (for_each call xs w))).
      direction r = (Some (JString ''en''), Some (JString ''uk''))"
    using issued_for_each [of call "translate_request ''en'' ''uk''" w xs, OF call_wire]
    by auto
  moreover have "\<forall>r\<in>set (issued w (snd (for_each call_back xs w))).
      direction r = (Some (JString ''uk''), Some (JString ''en''))"
    using issued_for_each [of call_back "translate_request ''uk'' ''en''" w xs, OF call_back_wire]
    by auto
  moreover have "\<forall>r\<in>set (issued s (snd (highload_main read_csv s))).
      direction r = (Some (JString ''uk''), Some (JString ''en''))"
    using issued_highload_main [of s read_csv]
    by (cases "read_csv dataset_path") auto
  ultimately show ?thesis by blast
qed

text \<open>
  Claim C8: every request that either script issues is a POST to \<open>addr\<close> whose body
  consists of exactly the fields \<^verbatim>\<open>text\<close>, \<^verbatim>\<open>source_lang\<close>, \<^verbatim>\<open>target_lang\<close>,
  the text being one of the sentences the pass runs over.
\<close>

theorem every_request_is_post_of_three_fields:
  "(\<forall>r\<in>set (issued w (snd (for_each call xs w))).
      three_fields r \<and> request_text r \<in> Some ` set xs)
   \<and> (\<forall>r\<in>set (issued w (snd (for_each call_back xs w))).
      three_fields r \<and> request_text r \<in> Some ` set xs)
   \<and> (\<forall>r\<in>set (issued w (snd (testing_main w))).
      three_fields r \<and> request_text r \<in> Some ` (set sentences_ukrainian \<union> set sentences_english))
   \<and> (\<forall>r\<in>set (issued s (snd (highload_main read_csv s))).
      three_fields r \<and>
      (case read_csv dataset_path of
         Inl e \<Rightarrow> False
       | Inr df \<Rightarrow> request_text r \<in> sentence ` set df))"
proof -
  have "\<forall>r\<in>set (issued w (snd (for_each call xs w))).
      three_fields r \<and> request_text r \<in> Some ` set xs"
    using issued_for_each [of call "translate_request ''en'' ''uk''" w xs, OF call_wire]
    by auto
  moreover have "\<forall>r\<in>set (issued w (snd (for_each call_back xs w))).
      three_fields r \<and> request_text r \<in> Some ` set xs"
    using issued_for_each [of call_back "translate_request ''uk'' ''en''" w xs, OF call_back_wire]
    by auto
  moreover have "\<forall>r\<in>set (issued w (snd (testing_main w))).
      three_fields r \<and> request_text r \<in> Some ` (set sentences_ukrainian \<union> set sentences_english)"
    using issued_testing_main [of w] by auto
  moreover have "\<forall>r\<in>set (issued s (snd (highload_main read_csv s))).
      three_fields r \<and>
      (case read_csv dataset_path of
         Inl e \<Rightarrow> False
       | Inr df \<Rightarrow> request_text r \<in> sentence ` set df)"
    using issued_highload_main [of s read_csv]
    by (cases "read_csv dataset_path") auto
  ultimately show ?thesis by blast
qed

section \<open>Concrete runs against the stub worlds\<close>

lemma stub_csv_rows: "stub_csv dataset_path = Inr five_rows"
  by (simp add: stub_csv_def)

lemma five_rows_sentences:
  "map sentence five_rows = [Some ''a'', Some ''b'', Some ''c'', Some ''d'', Some ''e'']"
  by (simp add: five_rows_def sentence_def)

lemma stub_world_succeeds: "succeeds_on stub_world five_rows"
  by (simp add: succeeds_on_def five_rows_def sentence_def round_trip_def stub_world_def
      stub_reply_def)

lemma failing_world_succeeds: "succeeds_on failing_world (take 2 five_rows)"
  by (simp add: succeeds_on_def five_rows_def sentence_def round_trip_def failing_world_def
      stub_reply_def)

lemma stub_elapsed: "elapsed_at stub_world i = 1 / 20" "elapsed_at failing_world i = 1 / 20"
  by (simp_all add: elapsed_at_def stub_world_def failing_world_def field_simps)

text \<open>The theorem above at the stub world.\<close>

theorem highload_main_aborts_on_failure_witness:
  "stub_csv dataset_path = Inr five_rows
   \<and> (2::nat) < length five_rows
   \<and> succeeds_on failing_world (take 2 five_rows)
   \<and> sentence (five_rows ! 2) = Some ''c''
   \<and> round_trip failing_world (length (wire failing_world) + 2)
        (translate_request ''uk'' ''en'' ''c'') = None
   \<and> fst (highload_main stub_csv failing_world) = Inl RequestFailed
   \<and> times' (snd (highload_main stub_csv failing_world)) = [1 / 20, 1 / 20]
   \<and> length (issued failing_world (snd (highload_main stub_csv failing_world))) = 3
   \<and> filter is_average (printed failing_world (snd (highload_main stub_csv failing_world))) = []"
proof -
  have h2: "(2::nat) < length five_rows" by (simp add: five_rows_def)
  have h4: "sentence (five_rows ! 2) = Some ''c''" by (simp add: five_rows_def sentence_def)
  have h5: "round_trip failing_world (length (wire failing_world) + 2)
        (translate_request ''uk'' ''en'' ''c'') = None"
    by (simp add: round_trip_def failing_world_def)
  have upt2: "[0..<2] = [0, Suc 0]" by (simp add: upt_rec)
  show ?thesis
    using highload_main_aborts_on_failure
      [of stub_csv five_rows 2 failing_world "''c''", OF stub_csv_rows h2 failing_world_succeeds h4 h5]
      stub_csv_rows h2 failing_world_succeeds h4 h5
    by (simp add: stub_elapsed upt2)
qed


text \<open>The theorem above at the stub world.\<close>

theorem highload_requests_follow_input_order_witness:
  "stub_csv dataset_path = Inr five_rows
   \<and> succeeds_on stub_world five_rows
   \<and> map request_text (issued stub_world (snd (highload_main stub_csv stub_world)))
       = [Some ''a'', Some ''b'', Some ''c'', Some ''d'', Some ''e'']"
  using highload_requests_follow_input_order [of stub_csv five_rows stub_world, OF stub_csv_rows]
    stub_csv_rows stub_world_succeeds
  by (simp add: five_rows_sentences)

text \<open>The theorem above at the stub world.\<close>

theorem highload_main_data_unavailable_witness:
  "missing_csv dataset_path = Inl DataUnavailable
   \<and> highload_main missing_csv stub_world = (Inl DataUnavailable, stub_world)
   \<and> issued stub_world (snd (highload_main missing_csv stub_world)) = []
   \<and> printed stub_world (snd (highload_main missing_csv stub_world)) = []"
proof -
  have h: "missing_csv dataset_path = Inl DataUnavailable" by (simp add: missing_csv_def)
  show ?thesis
    using highload_main_data_unavailable [of missing_csv stub_world, OF h] h
    by (simp add: issued_def printed_def)
qed

text \<open>The theorem above at the stub world.\<close>

theorem highload_elapsed_nonnegative_witness:
  "stub_csv dataset_path = Inr five_rows
   \<and> mono (clock stub_world)
   \<and> list_all (\<lambda>e. 0 \<le> e) (times' (snd (highload_main stub_csv stub_world)))"
proof -
  have m: "mono (clock stub_world)"
    by (rule monoI) (simp add: stub_world_def)
  show ?thesis
    using highload_elapsed_nonnegative [of stub_csv five_rows stub_world, OF stub_csv_rows m]
      stub_csv_rows m
    by (simp add: list_all_iff)
qed

text \<open>The theorem above at the stub world.\<close>

theorem highload_depends_on_sentences_only_witness:
  "stub_csv dataset_path = Inr five_rows
   \<and> other_csv dataset_path = Inr five_other_rows
   \<and> map sentence five_rows = map sentence five_other_rows
   \<and> highload_main stub_csv stub_world = highload_main other_csv stub_world"
proof -
  have h2: "other_csv dataset_path = Inr five_other_rows" by (simp add: other_csv_def)
  have h3: "map sentence five_rows = map sentence five_other_rows"
    by (simp add: five_rows_def five_other_rows_def sentence_def)
  show ?thesis
    using highload_depends_on_sentences_only
      [of stub_csv five_rows other_csv five_other_rows stub_world, OF stub_csv_rows h2 h3]
      stub_csv_rows h2 h3
    by simp
qed

lemma call_issued:
  "issued stub_world (snd (for_each call [''Hello, world!''] stub_world))
     = [translate_request ''en'' ''uk'' ''Hello, world!'']"
  by (simp add: issued_def call_def requests_post_def response_json_def print_line_def
      stub_world_def stub_reply_def translate_request_def Let_def)

lemma call_back_issued:
  "issued stub_world (snd (for_each call_back [''Hello, world!''] stub_world))
     = [translate_request ''uk'' ''en'' ''Hello, world!'']"
  by (simp add: issued_def call_back_def requests_post_def response_json_def print_line_def
      stub_world_def stub_reply_def translate_request_def Let_def)

lemma highload_issued:
  "issued stub_world (snd (highload_main stub_csv stub_world))
     = map (translate_request ''uk'' ''en'') [''a'', ''b'', ''c'', ''d'', ''e'']"
proof -
  have "five_rows \<noteq> []" by (simp add: five_rows_def)
  then show ?thesis
    using highload_main_ok [of stub_csv five_rows stub_world, OF stub_csv_rows _ stub_world_succeeds]
    by (simp add: final_state_def print_line_def issued_def)
      (simp add: five_rows_def sentence_def)
qed

text \<open>The theorem above at the stub world.\<close>

theorem direction_fixed_within_pass_witness:
  "direction (hd (issued stub_world (snd (for_each call [''Hello, world!''] stub_world))))
     = (Some (JString ''en''), Some (JString ''uk''))
   \<and> direction (hd (issued stub_world (snd (for_each call_back [''Hello, world!''] stub_world))))
     = (Some (JString ''uk''), Some (JString ''en''))
   \<and> direction (last (issued stub_world (snd (highload_main stub_csv stub_world))))
     = (Some (JString ''uk''), Some (JString ''en''))"
  using direction_fixed_within_pass [of stub_world "[''Hello, world!'']" stub_world stub_csv]
  by (simp add: call_issued call_back_issued highload_issued del: for_each.simps)

text \<open>The theorem above at the stub world.\<close>

theorem every_request_is_post_of_three_fields_witness:
  "three_fields (hd (issued stub_world (snd (for_each call [''Hello, world!''] stub_world))))
   \<and> request_text (hd (issued stub_world (snd (for_each call [''Hello, world!''] stub_world))))
       = Some ''Hello, world!''
   \<and> three_fields (hd (issued stub_world (snd (for_each call_back [''Hello, world!''] stub_world))))
   \<and> three_fields (last (issued stub_world (snd (highload_main stub_csv stub_world))))
   \<and> request_text (last (issued stub_world (snd (highload_main stub_csv stub_world))))
       = Some ''e''"
  using every_request_is_post_of_three_fields
    [of stub_world "[''Hello, world!'']" stub_world stub_csv]
  by (simp add: call_issued call_back_issued highload_issued del: for_each.simps)

end
